theory Spec2Isabelle
  imports Complex_Main "HOL-Library.Product_Lexorder" "HOL-Library.Multiset"
begin

section \<open>Data model (whisper\_utils.py, lines 12--28)\<close>

text \<open>
  A Python float is modelled by the rational it denotes: times and confidence values
  are doubles, given as rationals. Comparisons are exact; the arithmetic of the code
  (the midpoint of a straddling word, the time formatter) rounds as doubles do, see the
  next section. NaN is outside the model. Optional fields are \<open>option\<close> values. The
  fields \<open>start\<close>, \<open>end\<close> and \<open>text\<close> carry a prefix, since the two classes
  share the first two names and \<open>end\<close> and \<open>text\<close> are reserved words here.
\<close>

record WordToken =
  w_start :: rat
  w_end :: rat
  word :: string
  probability :: "rat option"

record TranscriptSegment =
  seg_start :: rat
  seg_end :: rat
  seg_text :: string
  avg_logprob :: "rat option"
  no_speech_prob :: "rat option"
  speaker :: "string option"
  words :: "WordToken list option"


section \<open>Double-precision arithmetic\<close>

text \<open>
  An operation of the code on doubles is the exact operation on their values followed by
  rounding to the nearest double, a tie going to the even significand. A double has a
  significand of 53 bits and an exponent of at least -1074. The rationals
  \<open>double_inf\<close> and \<open>- double_inf\<close> stand for the two infinities: they lie above
  and below every finite double.
\<close>

definition pow2 :: "int \<Rightarrow> rat" where
  "pow2 k = (if 0 \<le> k then 2 ^ nat k else 1 / 2 ^ nat (- k))"

definition round_half_even :: "rat \<Rightarrow> int" where
  "round_half_even x =
     (let f = \<lfloor>x\<rfloor>; d = x - of_int f
      in if d < 1 / 2 then f else if 1 / 2 < d then f + 1
         else if even f then f else f + 1)"

text \<open>
  The number of binary digits of a natural number, and from it the integer part of the
  binary logarithm of a positive rational: for \<open>a\<close> below 1 it is minus the least
  \<open>k\<close> with \<open>1 / a \<le> 2 ^ k\<close>.
\<close>

fun bit_length :: "nat \<Rightarrow> nat" where
  "bit_length n = (if n = 0 then 0 else Suc (bit_length (n div 2)))"

definition ilog2 :: "rat \<Rightarrow> int" where
  "ilog2 a =
     (if 1 \<le> a then int (bit_length (nat \<lfloor>a\<rfloor>)) - 1
      else - int (bit_length (nat (\<lceil>1 / a\<rceil> - 1))))"

text \<open>The value \<open>2 ^ 1024\<close>, written out.\<close>

definition double_inf :: rat where
  "double_inf = 179769313486231590772930519078902473361797697894230657273430081157732675805500963132708477322407536021120113879871393357658789768814416622492847430639474124377767893424865485276302219601246094119453082952085005768838150682342462881473913110540827237163350510684586298239947245938479716304835356329624224137216"

definition to_double :: "rat \<Rightarrow> rat" where
  "to_double x =
     (if x = 0 then 0
      else (let e = max (ilog2 \<bar>x\<bar> - 52) (- 1074);
                r = of_int (round_half_even (x / pow2 e)) * pow2 e
            in if double_inf \<le> \<bar>r\<bar> then sgn x * double_inf else r))"

definition float_add :: "rat \<Rightarrow> rat \<Rightarrow> rat" where
  "float_add x y = to_double (x + y)"

definition float_sub :: "rat \<Rightarrow> rat \<Rightarrow> rat" where
  "float_sub x y = to_double (x - y)"

definition float_mul :: "rat \<Rightarrow> rat \<Rightarrow> rat" where
  "float_mul x y = to_double (x * y)"

text \<open>Division by a finite double other than zero; an infinite dividend stays infinite.\<close>

definition float_div :: "rat \<Rightarrow> rat \<Rightarrow> rat" where
  "float_div x y = (if double_inf \<le> \<bar>x\<bar> then x * sgn y else to_double (x / y))"


section \<open>Character classes and \<open>str.strip\<close>\<close>

text \<open>
  Text is modelled over the code points 0..255. On that range Python's
  \<open>str.isspace\<close> (used by \<open>strip()\<close> and by \<open>\s\<close>) holds for 9..13, 28..32, 133
  and 160, and the class \<open>[\w\-]\<close> of \<open>_WORDLIKE\<close> (with \<open>re.UNICODE\<close>) holds for the
  hyphen, the underscore and every alphanumeric code point.
\<close>

definition is_space :: "char \<Rightarrow> bool" where
  "is_space c =
     (let n = (of_char c :: nat)
      in (9 \<le> n \<and> n \<le> 13) \<or> (28 \<le> n \<and> n \<le> 32) \<or> n = 133 \<or> n = 160)"

definition is_wordlike :: "char \<Rightarrow> bool" where
  "is_wordlike c =
     (let n = (of_char c :: nat)
      in n = 45 \<or> (48 \<le> n \<and> n \<le> 57) \<or> (65 \<le> n \<and> n \<le> 90) \<or> n = 95
         \<or> (97 \<le> n \<and> n \<le> 122)
         \<or> n = 170 \<or> n = 178 \<or> n = 179 \<or> n = 181 \<or> n = 185 \<or> n = 186
         \<or> (188 \<le> n \<and> n \<le> 190) \<or> (192 \<le> n \<and> n \<le> 214)
         \<or> (216 \<le> n \<and> n \<le> 246) \<or> 248 \<le> n)"

definition strip :: "string \<Rightarrow> string" where
  "strip s = rev (dropWhile is_space (rev (dropWhile is_space s)))"


section \<open>Confidence classifier (whisper\_utils.py, lines 31--75)\<close>

text \<open>\<open>_WORDLIKE.search(text)\<close> finds a match exactly when some character is in the class.\<close>

definition wordlike_search :: "string \<Rightarrow> bool" where
  "wordlike_search s = list_ex is_wordlike s"

definition should_mark_indistinct :: "string \<Rightarrow> rat option \<Rightarrow> rat option \<Rightarrow> bool" where
  "should_mark_indistinct txt avg_lp avg_word_prob =
     (if txt = [] \<or> \<not> wordlike_search txt then True
      else if (case avg_word_prob of None \<Rightarrow> False | Some p \<Rightarrow> p < 40 / 100) then True
      else if (case avg_lp of None \<Rightarrow> False | Some l \<Rightarrow> l < - (12 / 10)) then True
      else False)"

text \<open>
  One attempt of the pattern \<open>_BRACKETED\<close> (white space, a group that is either a
  square-bracketed or a parenthesised run, white space) at the head of a string.
  \<open>match_delimited close t\<close> is the part after the opening delimiter: one or more
  characters other than \<open>close\<close>, then \<open>close\<close>. The greedy white space takes all
  leading white space (giving back any of it leaves a space where a delimiter is
  needed). The result is group 1 and the text left after the whole match.
\<close>

definition match_delimited :: "char \<Rightarrow> string \<Rightarrow> (string \<times> string) option" where
  "match_delimited close t =
     (let body = takeWhile (\<lambda>c. c \<noteq> close) t;
          after = dropWhile (\<lambda>c. c \<noteq> close) t
      in if body = [] \<or> after = [] then None else Some (body, tl after))"

definition match_bracketed :: "string \<Rightarrow> (string \<times> string) option" where
  "match_bracketed s =
     (case dropWhile is_space s of
        [] \<Rightarrow> None
      | c # t \<Rightarrow>
          if c = CHR ''['' then
            (case match_delimited CHR '']'' t of
               None \<Rightarrow> None
             | Some (body, rest) \<Rightarrow> Some (CHR ''['' # body @ '']'', dropWhile is_space rest))
          else if c = CHR ''('' then
            (case match_delimited CHR '')'' t of
               None \<Rightarrow> None
             | Some (body, rest) \<Rightarrow> Some (CHR ''('' # body @ '')'', dropWhile is_space rest))
          else None)"

definition startswith :: "string \<Rightarrow> char \<Rightarrow> bool" where
  "startswith s c = (case s of [] \<Rightarrow> False | d # _ \<Rightarrow> d = c)"

definition endswith :: "string \<Rightarrow> char \<Rightarrow> bool" where
  "endswith s c = (s \<noteq> [] \<and> last s = c)"

text \<open>The callback \<open>repl\<close> of \<open>_emphasize_bracketed\<close>; \<open>inner[1:-1]\<close> is \<open>butlast (tl inner)\<close>.\<close>

definition repl :: "string \<Rightarrow> string" where
  "repl g =
     (let inner = strip g;
          inner = (if startswith inner CHR ''['' \<and> endswith inner CHR '']''
                   then strip (butlast (tl inner)) else inner);
          inner = (if startswith inner CHR ''('' \<and> endswith inner CHR '')''
                   then strip (butlast (tl inner)) else inner)
      in '' *'' @ inner @ ''* '')"

text \<open>
  \<open>_BRACKETED.sub(repl, text)\<close>: the leftmost match is replaced and the scan goes on
  after it; a character at which no match starts is copied. The pattern matches no
  empty string.
\<close>

function emphasize_bracketed :: "string \<Rightarrow> string" where
  "emphasize_bracketed [] = []"
| "emphasize_bracketed (c # cs) =
     (case match_bracketed (c # cs) of
        Some (g, rest) \<Rightarrow> repl g @ emphasize_bracketed rest
      | None \<Rightarrow> c # emphasize_bracketed cs)"
  by pat_completeness auto

text \<open>
  The text construction of \<open>transcribe_file\<close> (lines 119--129 and 158--161), which the
  specification calls \<open>finalize\<close>: the raw text is emphasized, and wrapped or replaced
  by the marker when the raw text is indistinct.
\<close>

definition finalize :: "string \<Rightarrow> rat option \<Rightarrow> rat option \<Rightarrow> string" where
  "finalize raw_text avg_lp avg_word_prob =
     (let txt = emphasize_bracketed raw_text
      in if should_mark_indistinct raw_text avg_lp avg_word_prob
         then (if txt \<noteq> [] then ''*'' @ txt @ ''*'' else ''*indistinct*'')
         else txt)"


section \<open>Segment splitter (whisper\_utils.py, lines 177--231)\<close>

text \<open>
  The loop over \<open>segment.words\<close> (lines 186--199), with the two lists it appends to
  as accumulators.
\<close>

fun partition_words ::
  "WordToken list \<Rightarrow> rat \<Rightarrow> WordToken list \<Rightarrow> WordToken list
    \<Rightarrow> WordToken list \<times> WordToken list" where
  "partition_words [] boundary_time left_words right_words = (left_words, right_words)"
| "partition_words (w # ws) boundary_time left_words right_words =
     (if w_end w \<le> boundary_time then
        partition_words ws boundary_time (left_words @ [w]) right_words
      else if w_start w \<ge> boundary_time then
        partition_words ws boundary_time left_words (right_words @ [w])
      else
        (let mid = float_div (float_add (w_start w) (w_end w)) 2
         in if mid \<le> boundary_time then
              partition_words ws boundary_time
                (left_words @ [\<lparr>w_start = w_start w, w_end = boundary_time,
                                 word = word w, probability = probability w\<rparr>])
                right_words
            else
              partition_words ws boundary_time left_words
                (right_words @ [\<lparr>w_start = boundary_time, w_end = w_end w,
                                  word = word w, probability = probability w\<rparr>])))"

text \<open>\<open>"".join(w.word for w in ws).strip()\<close>\<close>

definition joined_text :: "WordToken list \<Rightarrow> string" where
  "joined_text ws = strip (concat (map word ws))"

text \<open>The list \<open>parts\<close> as it stands after lines 201--227.\<close>

definition build_parts ::
  "TranscriptSegment \<Rightarrow> rat \<Rightarrow> WordToken list \<Rightarrow> WordToken list
    \<Rightarrow> TranscriptSegment list" where
  "build_parts segment boundary_time left_words right_words =
     (let parts = [];
          parts =
            (if left_words \<noteq> [] then
               (let left_text = joined_text left_words
                in parts @
                   [\<lparr>seg_start = seg_start segment, seg_end = boundary_time,
                     seg_text = (if left_text \<noteq> [] then emphasize_bracketed left_text
                                 else ''*indistinct*''),
                     avg_logprob = avg_logprob segment,
                     no_speech_prob = no_speech_prob segment,
                     speaker = speaker segment, words = Some left_words\<rparr>])
             else parts);
          parts =
            (if right_words \<noteq> [] then
               (let right_text = joined_text right_words
                in parts @
                   [\<lparr>seg_start = boundary_time, seg_end = seg_end segment,
                     seg_text = (if right_text \<noteq> [] then emphasize_bracketed right_text
                                 else ''*indistinct*''),
                     avg_logprob = avg_logprob segment,
                     no_speech_prob = no_speech_prob segment,
                     speaker = speaker segment, words = Some right_words\<rparr>])
             else parts)
      in parts)"

text \<open>\<open>not segment.words\<close> holds for \<open>None\<close> and for the empty list.\<close>

definition no_words :: "TranscriptSegment \<Rightarrow> bool" where
  "no_words segment = (case words segment of None \<Rightarrow> True | Some ws \<Rightarrow> ws = [])"

definition split_segment_at_time :: "TranscriptSegment \<Rightarrow> rat \<Rightarrow> TranscriptSegment list" where
  "split_segment_at_time segment boundary_time =
     (if boundary_time \<le> seg_start segment \<or> boundary_time \<ge> seg_end segment then [segment]
      else if no_words segment then
        (let left = segment\<lparr>seg_end := boundary_time\<rparr>;
             right = segment\<lparr>seg_start := boundary_time, seg_text := []\<rparr>
         in [left, right])
      else
        (case partition_words (the (words segment)) boundary_time [] [] of
           (left_words, right_words) \<Rightarrow>
             (let parts = build_parts segment boundary_time left_words right_words
              in if parts = []
                 then [segment\<lparr>seg_end := boundary_time, seg_text := ''*indistinct*''\<rparr>]
                 else parts)))"


section \<open>Boundary-set applier (whisper\_utils.py, lines 234--248)\<close>

text \<open>The innermost loop: every part of the stack is split at one boundary.\<close>

fun split_stack :: "TranscriptSegment list \<Rightarrow> rat \<Rightarrow> TranscriptSegment list" where
  "split_stack [] b = []"
| "split_stack (part # stack) b = split_segment_at_time part b @ split_stack stack b"

text \<open>The loop over the sorted boundaries, for one segment's stack.\<close>

fun split_at_all :: "TranscriptSegment list \<Rightarrow> rat list \<Rightarrow> TranscriptSegment list" where
  "split_at_all stack [] = stack"
| "split_at_all stack (b # bs) = split_at_all (split_stack stack b) bs"

text \<open>The loop over the segments, extending \<open>result\<close>.\<close>

fun split_each :: "TranscriptSegment list \<Rightarrow> rat list \<Rightarrow> TranscriptSegment list" where
  "split_each [] bs = []"
| "split_each (seg # segs) bs = split_at_all [seg] bs @ split_each segs bs"

definition split_segments_at_boundaries ::
  "TranscriptSegment list \<Rightarrow> rat list \<Rightarrow> TranscriptSegment list" where
  "split_segments_at_boundaries segments boundaries =
     (if segments = [] \<or> boundaries = [] then segments
      else
        (let boundaries = sort boundaries;
             result = split_each segments boundaries
         in filter (\<lambda>s. strip (seg_text s) \<noteq> []) result))"


section \<open>Dialogue merger (whisper\_utils.py, lines 251--273)\<close>

text \<open>
  \<open>merged.sort(key=lambda s: (s.start, s.end))\<close> is a stable sort on pairs compared
  lexicographically, as \<open>sort_key\<close> is on the lexicographic order of pairs.
\<close>

definition merge_dialogue ::
  "TranscriptSegment list \<Rightarrow> string \<Rightarrow> TranscriptSegment list \<Rightarrow> string
    \<Rightarrow> TranscriptSegment list" where
  "merge_dialogue left_segments left_speaker right_segments right_speaker =
     (let left_list = map (\<lambda>s. s\<lparr>speaker := Some left_speaker\<rparr>) left_segments;
          right_list = map (\<lambda>s. s\<lparr>speaker := Some right_speaker\<rparr>) right_segments;
          left_boundaries = map seg_start right_list;
          right_boundaries = map seg_start left_list;
          left_list = split_segments_at_boundaries left_list left_boundaries;
          right_list = split_segments_at_boundaries right_list right_boundaries;
          merged = left_list @ right_list
      in sort_key (\<lambda>s. (seg_start s, seg_end s)) merged)"


section \<open>Time formatter (lrc\_writer.py, lines 9--15)\<close>

text \<open>
  \<open>int(x)\<close> truncates towards zero, \<open>round(x)\<close> rounds the value of the double to the
  nearest integer and a tie to the even one, and the format \<open>02d\<close> writes an integer in
  decimal, with its sign, padded with zeros to two characters.
\<close>

definition py_int :: "rat \<Rightarrow> int" where
  "py_int x = (if 0 \<le> x then \<lfloor>x\<rfloor> else \<lceil>x\<rceil>)"

definition py_round :: "rat \<Rightarrow> int" where
  "py_round x = round_half_even x"

text \<open>
  \<open>x // y\<close> on doubles, as the interpreter computes it: the remainder \<open>fmod\<close> is exact
  and has the sign of \<open>x\<close>; the quotient of the difference is rounded, moved down by
  one when the remainder and the divisor differ in sign, and snapped to an integer.
\<close>

definition float_fmod :: "rat \<Rightarrow> rat \<Rightarrow> rat" where
  "float_fmod x y = x - y * of_int (py_int (x / y))"

definition float_floordiv :: "rat \<Rightarrow> rat \<Rightarrow> rat" where
  "float_floordiv vx wx =
     (let md = float_fmod vx wx;
          dv = float_div (float_sub vx md) wx;
          dv = (if md \<noteq> 0 \<and> ((wx < 0) \<noteq> (md < 0)) then float_sub dv 1 else dv)
      in if dv \<noteq> 0 then
           (let fd = of_int \<lfloor>dv\<rfloor>
            in if 1 / 2 < float_sub dv fd then float_add fd 1 else fd)
         else 0)"

definition digit_char :: "nat \<Rightarrow> char" where
  "digit_char d = char_of (48 + d)"

fun decimal :: "nat \<Rightarrow> string" where
  "decimal n = (if n < 10 then [digit_char n] else decimal (n div 10) @ [digit_char (n mod 10)])"

definition fmt_02d :: "int \<Rightarrow> string" where
  "fmt_02d i =
     (if i < 0 then CHR ''-'' # decimal (nat (- i))
      else (let ds = decimal (nat i) in replicate (2 - length ds) CHR ''0'' @ ds))"

text \<open>
  An integer operand of a float operation is first converted to the nearest double. A
  time so large that \<open>minutes * 60\<close> has no finite double (above \<open>10 ^ 308\<close> seconds)
  makes that conversion fail in the code and is outside the model.
\<close>

definition fmt_time :: "rat \<Rightarrow> string" where
  "fmt_time seconds0 =
     (let seconds = (if seconds0 < 0 then 0 else seconds0);
          minutes = py_int (float_floordiv seconds 60);
          secs = float_sub seconds (to_double (of_int (minutes * 60)));
          centis = py_round (float_mul (float_sub secs (to_double (of_int (py_int secs)))) 100)
      in ''['' @ fmt_02d minutes @ '':'' @ fmt_02d (py_int secs) @ ''.'' @ fmt_02d centis @ '']'')"


section \<open>Predicates and example inputs used in the statements\<close>

text \<open>
  A word straddles a boundary when neither of the first two tests of the loop holds
  (line 193): it starts before the boundary and ends after it.
\<close>

definition straddles :: "rat \<Rightarrow> WordToken \<Rightarrow> bool" where
  "straddles boundary_time w = (w_start w < boundary_time \<and> boundary_time < w_end w)"

definition span :: "TranscriptSegment \<Rightarrow> rat \<times> rat" where
  "span s = (seg_start s, seg_end s)"

text \<open>The text that lines 208 and 221 give to a part built from the words \<open>ws\<close>.\<close>

definition part_text :: "WordToken list \<Rightarrow> string" where
  "part_text ws =
     (if joined_text ws \<noteq> [] then emphasize_bracketed (joined_text ws) else ''*indistinct*'')"

definition word_hello :: WordToken where
  "word_hello = \<lparr>w_start = 0, w_end = 1, word = ''Hello '', probability = Some (9 / 10)\<rparr>"

definition word_world :: WordToken where
  "word_world = \<lparr>w_start = 1, w_end = 2, word = '' world'', probability = Some (9 / 10)\<rparr>"

definition word_long :: WordToken where
  "word_long = \<lparr>w_start = 1 / 2, w_end = 2, word = '' there'', probability = None\<rparr>"

text \<open>Scenario 3 of the specification: two words meeting at 1.\<close>

definition seg_aligned :: TranscriptSegment where
  "seg_aligned =
     \<lparr>seg_start = 0, seg_end = 2, seg_text = ''Hello  world'', avg_logprob = None,
      no_speech_prob = None, speaker = None, words = Some [word_hello, word_world]\<rparr>"


text \<open>A segment whose only word starts after the segment does.\<close>

definition seg_late_word :: TranscriptSegment where
  "seg_late_word =
     \<lparr>seg_start = 0, seg_end = 2, seg_text = ''world'', avg_logprob = None,
      no_speech_prob = None, speaker = None, words = Some [word_world]\<rparr>"

text \<open>Scenario 4 of the specification: two channels without word alignment.\<close>

definition seg_you :: TranscriptSegment where
  "seg_you =
     \<lparr>seg_start = 0, seg_end = 1, seg_text = ''Hello'', avg_logprob = None,
      no_speech_prob = None, speaker = None, words = None\<rparr>"

definition seg_other :: TranscriptSegment where
  "seg_other =
     \<lparr>seg_start = 1 / 2, seg_end = 3 / 2, seg_text = ''Hi there'', avg_logprob = None,
      no_speech_prob = None, speaker = None, words = None\<rparr>"

text \<open>A segment whose second word starts before 1 and ends after it.\<close>

definition seg_straddle :: TranscriptSegment where
  "seg_straddle =
     \<lparr>seg_start = 0, seg_end = 2, seg_text = ''Hello  there'', avg_logprob = None,
      no_speech_prob = None, speaker = None, words = Some [word_hello, word_long]\<rparr>"

text \<open>
  A word from 3.0 to 3.1 and the boundary 3.05, as the doubles these literals denote:
  the sum of the two ends is a tie between two doubles.
\<close>

definition word_tenth :: WordToken where
  "word_tenth =
     \<lparr>w_start = 3, w_end = to_double (31 / 10), word = '' so'', probability = None\<rparr>"

definition seg_tenth :: TranscriptSegment where
  "seg_tenth =
     \<lparr>seg_start = 3, seg_end = to_double (31 / 10), seg_text = ''so'', avg_logprob = None,
      no_speech_prob = None, speaker = None, words = Some [word_tenth]\<rparr>"

text \<open>An unaligned segment of the other channel that starts inside \<open>seg_aligned\<close>.\<close>

definition seg_reply :: TranscriptSegment where
  "seg_reply =
     \<lparr>seg_start = 1, seg_end = 5 / 2, seg_text = ''Hi there'', avg_logprob = None,
      no_speech_prob = None, speaker = None, words = None\<rparr>"

declare bit_length.simps [simp del]


section \<open>Termination of the substitution\<close>

lemma match_delimited_shorter:
  "match_delimited close t = Some (body, rest) \<Longrightarrow> length rest < length t"
proof -
  assume a: "match_delimited close t = Some (body, rest)"
  let ?after = "dropWhile (\<lambda>c. c \<noteq> close) t"
  from a have ne: "?after \<noteq> []" and r: "rest = tl ?after"
    by (auto simp: match_delimited_def Let_def split: if_splits)
  have "length ?after \<le> length t" by (rule length_dropWhile_le)
  moreover from ne have "length (tl ?after) < length ?after" by (cases ?after) auto
  ultimately show ?thesis using r by simp
qed

lemma match_bracketed_shorter:
  "match_bracketed s = Some (g, rest) \<Longrightarrow> length rest < length s"
proof -
  assume a: "match_bracketed s = Some (g, rest)"
  have le: "length (dropWhile is_space s) \<le> length s" by (rule length_dropWhile_le)
  from a obtain c t where ct: "dropWhile is_space s = c # t"
    by (cases "dropWhile is_space s") (auto simp: match_bracketed_def)
  from a ct obtain close body r where
    m: "match_delimited close t = Some (body, r)" and rest: "rest = dropWhile is_space r"
    by (auto simp: match_bracketed_def split: if_splits option.splits)
  have "length rest \<le> length r" unfolding rest by (rule length_dropWhile_le)
  also have "\<dots> < length t" using m by (rule match_delimited_shorter)
  also have "\<dots> < length s" using le ct by simp
  finally show ?thesis .
qed

termination emphasize_bracketed
  by (relation "measure length") (auto dest: match_bracketed_shorter)


section \<open>The word loop and the parts it feeds\<close>

lemma partition_words_acc:
  "partition_words ws t l r =
     (l @ fst (partition_words ws t [] []), r @ snd (partition_words ws t [] []))"
proof (induction ws arbitrary: l r)
  case Nil
  show ?case by simp
next
  case (Cons w ws)
  note IH = Cons.IH
  show ?case
    by (simp add: Let_def IH [of "l @ [x]" r for x] IH [of l "r @ [x]" for x]
        IH [of "[x]" "[]" for x] IH [of "[]" "[x]" for x])
qed

lemma partition_words_append:
  "partition_words (xs @ ys) t l r =
     partition_words ys t (fst (partition_words xs t l r)) (snd (partition_words xs t l r))"
  by (induction xs arbitrary: l r) (simp_all add: Let_def)

lemma partition_words_length:
  "length (fst (partition_words ws t l r)) + length (snd (partition_words ws t l r))
     = length l + length r + length ws"
  by (induction ws arbitrary: l r) (simp_all add: Let_def)

lemma partition_words_nonempty:
  "ws \<noteq> [] \<Longrightarrow> fst (partition_words ws t [] []) \<noteq> [] \<or> snd (partition_words ws t [] []) \<noteq> []"
  using partition_words_length [of ws t "[]" "[]"] by (cases ws) auto

lemma build_parts_eq:
  "build_parts segment t l r =
     (if l \<noteq> [] then
        [\<lparr>seg_start = seg_start segment, seg_end = t, seg_text = part_text l,
          avg_logprob = avg_logprob segment, no_speech_prob = no_speech_prob segment,
          speaker = speaker segment, words = Some l\<rparr>] else []) @
     (if r \<noteq> [] then
        [\<lparr>seg_start = t, seg_end = seg_end segment, seg_text = part_text r,
          avg_logprob = avg_logprob segment, no_speech_prob = no_speech_prob segment,
          speaker = speaker segment, words = Some r\<rparr>] else [])"
  by (simp add: build_parts_def part_text_def Let_def)

lemma build_parts_nonempty: "l \<noteq> [] \<or> r \<noteq> [] \<Longrightarrow> build_parts segment t l r \<noteq> []"
  by (auto simp: build_parts_eq)

lemma build_parts_length: "length (build_parts segment t l r) \<le> 2"
  by (simp add: build_parts_eq)

lemma split_aligned:
  assumes "words segment = Some ws" "ws \<noteq> []" "seg_start segment < t" "t < seg_end segment"
  shows "split_segment_at_time segment t =
           build_parts segment t (fst (partition_words ws t [] [])) (snd (partition_words ws t [] []))"
proof -
  have "build_parts segment t (fst (partition_words ws t [] [])) (snd (partition_words ws t [] [])) \<noteq> []"
    using assms(2) by (intro build_parts_nonempty partition_words_nonempty)
  then show ?thesis using assms
    by (simp add: split_segment_at_time_def no_words_def Let_def case_prod_beta)
qed

lemma partition_words_no_straddle:
  "\<forall>w\<in>set ws. \<not> straddles t w \<Longrightarrow>
     partition_words ws t l r =
       (l @ filter (\<lambda>w. w_end w \<le> t) ws, r @ filter (\<lambda>w. \<not> w_end w \<le> t) ws)"
proof (induction ws arbitrary: l r)
  case Nil
  show ?case by simp
next
  case (Cons w ws)
  from Cons.prems have w: "\<not> straddles t w" and rest: "\<forall>w\<in>set ws. \<not> straddles t w"
    by simp_all
  show ?case
  proof (cases "w_end w \<le> t")
    case True
    then show ?thesis using Cons.IH [OF rest] by simp
  next
    case False
    with w have "t \<le> w_start w" by (simp add: straddles_def)
    with False show ?thesis using Cons.IH [OF rest] by simp
  qed
qed


section \<open>Evaluations used by the examples\<close>

lemma float_midpoint_examples:
  "float_div (float_add (1 / 2) 2) 2 = 5 / 4
   \<and> to_double (31 / 10) = 6980579422424269 / 2251799813685248
   \<and> to_double (305 / 100) = 3433994715870003 / 1125899906842624
   \<and> float_div (float_add 3 (to_double (31 / 10))) 2 = to_double (305 / 100)
   \<and> to_double (305 / 100) < (3 + to_double (31 / 10)) / 2"
  by code_simp





section \<open>The speaker label through the applier\<close>

lemma split_speaker:
  "p \<in> set (split_segment_at_time s t) \<Longrightarrow> speaker p = speaker s"
  by (auto simp: split_segment_at_time_def Let_def build_parts_eq split: if_splits prod.splits)

lemma split_stack_speaker:
  "p \<in> set (split_stack stack b) \<Longrightarrow> \<exists>s\<in>set stack. speaker p = speaker s"
  by (induction stack) (auto dest: split_speaker)

lemma split_at_all_speaker:
  "p \<in> set (split_at_all stack bs) \<Longrightarrow> \<exists>s\<in>set stack. speaker p = speaker s"
proof (induction bs arbitrary: stack)
  case Nil
  then show ?case by auto
next
  case (Cons b bs)
  from Cons.prems have "p \<in> set (split_at_all (split_stack stack b) bs)" by simp
  from Cons.IH [OF this] obtain q where q: "q \<in> set (split_stack stack b)"
    and pq: "speaker p = speaker q" by blast
  from split_stack_speaker [OF q] pq show ?case by auto
qed

lemma split_each_speaker:
  "p \<in> set (split_each segs bs) \<Longrightarrow> \<exists>s\<in>set segs. speaker p = speaker s"
proof (induction segs)
  case Nil
  then show ?case by simp
next
  case (Cons seg segs)
  from Cons.prems consider "p \<in> set (split_at_all [seg] bs)" | "p \<in> set (split_each segs bs)"
    by auto
  then show ?case
  proof cases
    case 1
    from split_at_all_speaker [OF this] show ?thesis by simp
  next
    case 2
    from Cons.IH [OF this] show ?thesis by auto
  qed
qed

lemma boundaries_speaker:
  "p \<in> set (split_segments_at_boundaries segs bs) \<Longrightarrow> \<exists>s\<in>set segs. speaker p = speaker s"
  by (auto simp: split_segments_at_boundaries_def Let_def dest: split_each_speaker
      split: if_splits)


section \<open>Properties of the segment splitter\<close>

text \<open>
  C4. A segment without word alignment (\<open>words\<close> absent), split at a time strictly
  inside its span, gives exactly two parts in order: a copy ending at the boundary with
  the original text, and a copy starting at the boundary with empty text; every other
  field is copied.
\<close>

theorem split_without_words:
  assumes "words segment = None" "seg_start segment < t" "t < seg_end segment"
  shows "split_segment_at_time segment t =
           [segment\<lparr>seg_end := t\<rparr>, segment\<lparr>seg_start := t, seg_text := []\<rparr>]"
  using assms by (simp add: split_segment_at_time_def no_words_def Let_def)

theorem split_without_words_witness:
  "words seg_you = None \<and> seg_start seg_you < 1 / 2 \<and> 1 / 2 < seg_end seg_you \<and>
   split_segment_at_time seg_you (1 / 2) =
     [\<lparr>seg_start = 0, seg_end = 1 / 2, seg_text = ''Hello'', avg_logprob = None,
       no_speech_prob = None, speaker = None, words = None\<rparr>,
      \<lparr>seg_start = 1 / 2, seg_end = 1, seg_text = [], avg_logprob = None,
       no_speech_prob = None, speaker = None, words = None\<rparr>]"
  using split_without_words [of seg_you "1 / 2"] by (simp add: seg_you_def)

text \<open>
  C10. For a segment with a non-empty word list and a boundary strictly inside its span,
  the loop puts each word on exactly one side, so the two sides are not both empty, the
  list of parts is non-empty before the placeholder test, and the result is that list,
  of length one or two. A segment whose word list is present but empty takes the branch
  for segments without alignment. No input gives an empty result.
\<close>

theorem split_never_empty:
  "(words segment = Some ws \<and> ws \<noteq> [] \<and> seg_start segment < t \<and> t < seg_end segment \<longrightarrow>
      length (fst (partition_words ws t [] [])) + length (snd (partition_words ws t [] []))
        = length ws
      \<and> (fst (partition_words ws t [] []) \<noteq> [] \<or> snd (partition_words ws t [] []) \<noteq> [])
      \<and> build_parts segment t (fst (partition_words ws t [] []))
           (snd (partition_words ws t [] [])) \<noteq> []
      \<and> split_segment_at_time segment t =
           build_parts segment t (fst (partition_words ws t [] []))
             (snd (partition_words ws t [] []))
      \<and> (length (split_segment_at_time segment t) = 1
           \<or> length (split_segment_at_time segment t) = 2))
   \<and> (words segment = Some [] \<and> seg_start segment < t \<and> t < seg_end segment \<longrightarrow>
        split_segment_at_time segment t =
          [segment\<lparr>seg_end := t\<rparr>, segment\<lparr>seg_start := t, seg_text := []\<rparr>])
   \<and> split_segment_at_time segment t \<noteq> []
   \<and> length (split_segment_at_time segment t) \<le> 2"
proof (intro conjI impI)
  assume a: "words segment = Some ws \<and> ws \<noteq> [] \<and> seg_start segment < t \<and> t < seg_end segment"
  let ?l = "fst (partition_words ws t [] [])" and ?r = "snd (partition_words ws t [] [])"
  show len: "length ?l + length ?r = length ws"
    using partition_words_length [of ws t "[]" "[]"] by simp
  show ne: "?l \<noteq> [] \<or> ?r \<noteq> []" using a by (intro partition_words_nonempty) simp
  show bp: "build_parts segment t ?l ?r \<noteq> []" using ne by (rule build_parts_nonempty)
  show eq: "split_segment_at_time segment t = build_parts segment t ?l ?r"
    using a by (simp add: split_aligned)
  have "length (build_parts segment t ?l ?r) \<le> 2" by (rule build_parts_length)
  moreover have "length (build_parts segment t ?l ?r) \<noteq> 0" using bp by simp
  ultimately show "length (split_segment_at_time segment t) = 1
      \<or> length (split_segment_at_time segment t) = 2"
    unfolding eq by arith
next
  assume "words segment = Some [] \<and> seg_start segment < t \<and> t < seg_end segment"
  then show "split_segment_at_time segment t =
      [segment\<lparr>seg_end := t\<rparr>, segment\<lparr>seg_start := t, seg_text := []\<rparr>]"
    by (simp add: split_segment_at_time_def no_words_def Let_def)
next
  show "split_segment_at_time segment t \<noteq> []"
    by (simp add: split_segment_at_time_def Let_def split: prod.splits)
next
  show "length (split_segment_at_time segment t) \<le> 2"
    by (simp add: split_segment_at_time_def Let_def build_parts_length split: prod.splits)
qed

theorem split_never_empty_witness:
  "words seg_aligned = Some [word_hello, word_world] \<and> [word_hello, word_world] \<noteq> []
   \<and> seg_start seg_aligned < 1 \<and> 1 < seg_end seg_aligned
   \<and> partition_words [word_hello, word_world] 1 [] [] = ([word_hello], [word_world])
   \<and> length (split_segment_at_time seg_aligned 1) = 2"
  using split_never_empty [of seg_aligned "[word_hello, word_world]" 1]
  by (simp add: seg_aligned_def word_hello_def word_world_def build_parts_eq)

text \<open>
  C3. In a word-aligned segment split strictly inside its span, a word that straddles
  the boundary goes to exactly one side, chosen by its midpoint as the code computes it
  (the sum of its two ends, then the half of that sum, each rounded to a double): at
  most the boundary, the word is cut to end at the boundary and joins the left words at
  its position; otherwise it is cut to start at the boundary and joins the right words.
  The other side receives no token for it, and the parts carry exactly these word
  lists. The second example is a word from 3.0 to 3.1 cut at 3.05: the computed
  midpoint is the boundary itself and the word goes left, while the exact midpoint of
  the two doubles lies above the boundary.
\<close>

theorem straddling_word_by_midpoint:
  assumes "words segment = Some (pre @ w # post)"
    and "seg_start segment < t" and "t < seg_end segment"
    and "w_start w < t" and "t < w_end w"
  shows "partition_words (pre @ w # post) t [] [] =
           (if float_div (float_add (w_start w) (w_end w)) 2 \<le> t
            then (fst (partition_words pre t [] [])
                    @ [\<lparr>w_start = w_start w, w_end = t, word = word w,
                         probability = probability w\<rparr>]
                    @ fst (partition_words post t [] []),
                  snd (partition_words pre t [] []) @ snd (partition_words post t [] []))
            else (fst (partition_words pre t [] []) @ fst (partition_words post t [] []),
                  snd (partition_words pre t [] [])
                    @ [\<lparr>w_start = t, w_end = w_end w, word = word w,
                         probability = probability w\<rparr>]
                    @ snd (partition_words post t [] [])))
       \<and> map words (split_segment_at_time segment t) =
           map Some (filter (\<lambda>side. side \<noteq> [])
             [fst (partition_words (pre @ w # post) t [] []),
              snd (partition_words (pre @ w # post) t [] [])])"
proof
  have step: "partition_words (w # post) t l r =
      (if float_div (float_add (w_start w) (w_end w)) 2 \<le> t
       then partition_words post t
              (l @ [\<lparr>w_start = w_start w, w_end = t, word = word w,
                       probability = probability w\<rparr>]) r
       else partition_words post t l
              (r @ [\<lparr>w_start = t, w_end = w_end w, word = word w,
                       probability = probability w\<rparr>]))" for l r
    using assms(4,5) by (simp add: Let_def)
  have accl: "partition_words post t (fst (partition_words pre t [] []) @ [x])
        (snd (partition_words pre t [] [])) =
      ((fst (partition_words pre t [] []) @ [x]) @ fst (partition_words post t [] []),
       snd (partition_words pre t [] []) @ snd (partition_words post t [] []))" for x
    by (rule partition_words_acc)
  have accr: "partition_words post t (fst (partition_words pre t [] []))
        (snd (partition_words pre t [] []) @ [x]) =
      (fst (partition_words pre t [] []) @ fst (partition_words post t [] []),
       (snd (partition_words pre t [] []) @ [x]) @ snd (partition_words post t [] []))" for x
    by (rule partition_words_acc)
  show "partition_words (pre @ w # post) t [] [] =
           (if float_div (float_add (w_start w) (w_end w)) 2 \<le> t
            then (fst (partition_words pre t [] [])
                    @ [\<lparr>w_start = w_start w, w_end = t, word = word w,
                         probability = probability w\<rparr>]
                    @ fst (partition_words post t [] []),
                  snd (partition_words pre t [] []) @ snd (partition_words post t [] []))
            else (fst (partition_words pre t [] []) @ fst (partition_words post t [] []),
                  snd (partition_words pre t [] [])
                    @ [\<lparr>w_start = t, w_end = w_end w, word = word w,
                         probability = probability w\<rparr>]
                    @ snd (partition_words post t [] [])))"
    unfolding partition_words_append step
    by (simp add: accl accr)
next
  have "pre @ w # post \<noteq> []" by simp
  from split_aligned [OF assms(1) this assms(2,3)]
  show "map words (split_segment_at_time segment t) =
           map Some (filter (\<lambda>side. side \<noteq> [])
             [fst (partition_words (pre @ w # post) t [] []),
              snd (partition_words (pre @ w # post) t [] [])])"
    by (simp add: build_parts_eq)
qed

theorem straddling_word_by_midpoint_witness:
  "words seg_straddle = Some ([word_hello] @ word_long # [])
   \<and> seg_start seg_straddle < 1 \<and> 1 < seg_end seg_straddle
   \<and> w_start word_long < 1 \<and> 1 < w_end word_long
   \<and> float_div (float_add (w_start word_long) (w_end word_long)) 2 = 5 / 4
   \<and> partition_words ([word_hello] @ word_long # []) 1 [] [] =
        ([word_hello], [\<lparr>w_start = 1, w_end = 2, word = '' there'', probability = None\<rparr>])
   \<and> map words (split_segment_at_time seg_straddle 1) =
        [Some [word_hello],
         Some [\<lparr>w_start = 1, w_end = 2, word = '' there'', probability = None\<rparr>]]
   \<and> words seg_tenth = Some ([] @ word_tenth # [])
   \<and> seg_start seg_tenth < to_double (305 / 100) \<and> to_double (305 / 100) < seg_end seg_tenth
   \<and> w_start word_tenth < to_double (305 / 100) \<and> to_double (305 / 100) < w_end word_tenth
   \<and> float_div (float_add (w_start word_tenth) (w_end word_tenth)) 2 = to_double (305 / 100)
   \<and> to_double (305 / 100) < (w_start word_tenth + w_end word_tenth) / 2
   \<and> partition_words ([] @ word_tenth # []) (to_double (305 / 100)) [] [] =
        ([\<lparr>w_start = 3, w_end = to_double (305 / 100), word = '' so'', probability = None\<rparr>], [])
   \<and> map words (split_segment_at_time seg_tenth (to_double (305 / 100))) =
        [Some [\<lparr>w_start = 3, w_end = to_double (305 / 100), word = '' so'',
                 probability = None\<rparr>]]"
proof -
  note ex = float_midpoint_examples
  have a: "words seg_straddle = Some ([word_hello] @ word_long # [])
      \<and> seg_start seg_straddle < 1 \<and> 1 < seg_end seg_straddle
      \<and> w_start word_long < 1 \<and> 1 < w_end word_long
      \<and> float_div (float_add (w_start word_long) (w_end word_long)) 2 = 5 / 4"
    using ex by (simp add: seg_straddle_def word_long_def)
  have b: "words seg_tenth = Some ([] @ word_tenth # [])
      \<and> seg_start seg_tenth < to_double (305 / 100) \<and> to_double (305 / 100) < seg_end seg_tenth
      \<and> w_start word_tenth < to_double (305 / 100) \<and> to_double (305 / 100) < w_end word_tenth
      \<and> float_div (float_add (w_start word_tenth) (w_end word_tenth)) 2 = to_double (305 / 100)
      \<and> to_double (305 / 100) < (w_start word_tenth + w_end word_tenth) / 2"
    using ex by (simp add: seg_tenth_def word_tenth_def)
  from a straddling_word_by_midpoint [of seg_straddle "[word_hello]" word_long "[]" 1]
  have c: "partition_words ([word_hello] @ word_long # []) 1 [] [] =
        ([word_hello], [\<lparr>w_start = 1, w_end = 2, word = '' there'', probability = None\<rparr>])
      \<and> map words (split_segment_at_time seg_straddle 1) =
        [Some [word_hello],
         Some [\<lparr>w_start = 1, w_end = 2, word = '' there'', probability = None\<rparr>]]"
    by (simp add: word_hello_def word_long_def)
  from b straddling_word_by_midpoint
         [of seg_tenth "[]" word_tenth "[]" "to_double (305 / 100)"]
  have d: "partition_words ([] @ word_tenth # []) (to_double (305 / 100)) [] [] =
        ([\<lparr>w_start = 3, w_end = to_double (305 / 100), word = '' so'', probability = None\<rparr>], [])
      \<and> map words (split_segment_at_time seg_tenth (to_double (305 / 100))) =
        [Some [\<lparr>w_start = 3, w_end = to_double (305 / 100), word = '' so'',
                 probability = None\<rparr>]]"
    by (simp add: word_tenth_def)
  from a b c d show ?thesis by blast
qed

text \<open>
  C2, as the code has it. For a segment with a non-empty word list, a boundary strictly
  inside its span and no word straddling the boundary, the parts are, in order, one
  spanning from the segment's start to the boundary when some word ends at or before
  the boundary, and one spanning from the boundary to the segment's end when some word
  ends after it. With words on both sides the two spans partition the segment's span at
  the boundary; with words on one side only, the other side of the span is in no part.
\<close>

theorem split_spans_no_straddle:
  assumes "words segment = Some ws" and "ws \<noteq> []"
    and "seg_start segment < t" and "t < seg_end segment"
    and "\<forall>w\<in>set ws. \<not> straddles t w"
  shows "map span (split_segment_at_time segment t) =
           (if \<exists>w\<in>set ws. w_end w \<le> t then [(seg_start segment, t)] else []) @
           (if \<exists>w\<in>set ws. \<not> w_end w \<le> t then [(t, seg_end segment)] else [])"
proof -
  have l: "fst (partition_words ws t [] []) = filter (\<lambda>w. w_end w \<le> t) ws"
    and r: "snd (partition_words ws t [] []) = filter (\<lambda>w. \<not> w_end w \<le> t) ws"
    using partition_words_no_straddle [OF assms(5), of "[]" "[]"] by simp_all
  have "split_segment_at_time segment t =
      build_parts segment t (filter (\<lambda>w. w_end w \<le> t) ws) (filter (\<lambda>w. \<not> w_end w \<le> t) ws)"
    using split_aligned [OF assms(1-4)] unfolding l r .
  then show ?thesis
    by (simp add: build_parts_eq span_def filter_empty_conv)
qed

theorem split_spans_no_straddle_witness:
  "words seg_aligned = Some [word_hello, word_world] \<and> [word_hello, word_world] \<noteq> []
   \<and> seg_start seg_aligned < 1 \<and> 1 < seg_end seg_aligned
   \<and> \<not> straddles 1 word_hello \<and> \<not> straddles 1 word_world
   \<and> map span (split_segment_at_time seg_aligned 1) = [(0, 1), (1, 2)]"
  using split_spans_no_straddle [of seg_aligned "[word_hello, word_world]" 1]
  by (simp add: seg_aligned_def word_hello_def word_world_def straddles_def)

text \<open>
  The span of a part is not always covered: a segment from 0 to 2 whose only word runs
  from 1 to 2, split at 1/2 with no word straddling, gives the single part from 1/2 to 2.
\<close>

theorem split_gap_counterexample:
  "words seg_late_word = Some [word_world]
   \<and> seg_start seg_late_word = 0 \<and> seg_end seg_late_word = 2
   \<and> seg_start seg_late_word < 1 / 2 \<and> 1 / 2 < seg_end seg_late_word
   \<and> \<not> straddles (1 / 2) word_world
   \<and> map span (split_segment_at_time seg_late_word (1 / 2)) = [(1 / 2, 2)]"
  by (simp add: seg_late_word_def word_world_def straddles_def split_segment_at_time_def
      no_words_def build_parts_eq span_def)





section \<open>Properties of the confidence classifier\<close>

text \<open>
  C5. The text construction returns the emphasized raw text unchanged unless the raw
  text is indistinct; the raw text is indistinct exactly when it is empty or has no
  word-like character, or the average word probability is present and below 0.40, or
  the average log-probability is present and below -1.2. An indistinct text is the
  emphasized text between asterisks when that is non-empty and the marker
  \<open>*indistinct*\<close> otherwise. On floats the two comparisons agree with those against
  the rationals 2/5 and -6/5, the float constants being the nearest floats to them.
\<close>

theorem finalize_thresholds:
  "(should_mark_indistinct raw lp wp \<longleftrightarrow>
      raw = [] \<or> (\<forall>c\<in>set raw. \<not> is_wordlike c)
      \<or> (case wp of None \<Rightarrow> False | Some p \<Rightarrow> p < 40 / 100) \<or> (case lp of None \<Rightarrow> False | Some l \<Rightarrow> l < - (12 / 10)))
   \<and> finalize raw lp wp =
       (if raw = [] \<or> (\<forall>c\<in>set raw. \<not> is_wordlike c)
           \<or> (case wp of None \<Rightarrow> False | Some p \<Rightarrow> p < 40 / 100) \<or> (case lp of None \<Rightarrow> False | Some l \<Rightarrow> l < - (12 / 10))
        then (if emphasize_bracketed raw \<noteq> [] then ''*'' @ emphasize_bracketed raw @ ''*''
              else ''*indistinct*'')
        else emphasize_bracketed raw)
   \<and> finalize [] None None = ''*indistinct*''
   \<and> finalize ''uh'' (Some (- 2)) None = ''*uh*''"
proof -
  have ind: "should_mark_indistinct raw lp wp \<longleftrightarrow>
      raw = [] \<or> (\<forall>c\<in>set raw. \<not> is_wordlike c)
      \<or> (case wp of None \<Rightarrow> False | Some p \<Rightarrow> p < 40 / 100) \<or> (case lp of None \<Rightarrow> False | Some l \<Rightarrow> l < - (12 / 10))"
    by (cases wp; cases lp)
      (auto simp: should_mark_indistinct_def wordlike_search_def list_ex_iff)
  have fin: "finalize raw lp wp =
      (if should_mark_indistinct raw lp wp
       then (if emphasize_bracketed raw \<noteq> [] then ''*'' @ emphasize_bracketed raw @ ''*''
             else ''*indistinct*'')
       else emphasize_bracketed raw)"
    by (simp add: finalize_def Let_def)
  have e1: "finalize [] None None = ''*indistinct*''"
    by (simp add: finalize_def should_mark_indistinct_def)
  have e2: "finalize ''uh'' (Some (- 2)) None = ''*uh*''"
    by (simp add: finalize_def should_mark_indistinct_def wordlike_search_def is_wordlike_def
        match_bracketed_def is_space_def)
  show ?thesis using ind fin e1 e2 by simp
qed

theorem finalize_thresholds_witness:
  "should_mark_indistinct ''hello'' None (Some (2 / 10))
   \<and> finalize ''hello'' None (Some (2 / 10)) = ''*hello*''
   \<and> \<not> should_mark_indistinct ''[music]'' None None
   \<and> finalize ''[music]'' None None = '' *music* ''"
  using finalize_thresholds [of "''hello''" None "Some (2 / 10)"]
    finalize_thresholds [of "''[music]''" None None]
  by (simp add: is_wordlike_def match_bracketed_def is_space_def match_delimited_def repl_def
      strip_def startswith_def endswith_def)


section \<open>Properties of the boundary-set applier and the merger\<close>

text \<open>
  C8. With no segments or no boundaries the segments are returned unchanged. Otherwise
  the result is the concatenation of the segments' refined stacks with every part of
  blank text removed, so every part of the result has non-empty trimmed text; an
  unaligned segment of non-blank text cut once keeps its left part only. The function
  is total: no case raises.
\<close>

theorem boundaries_drop_empty:
  "(segments = [] \<or> boundaries = [] \<longrightarrow>
      split_segments_at_boundaries segments boundaries = segments)
   \<and> (segments \<noteq> [] \<and> boundaries \<noteq> [] \<longrightarrow>
      split_segments_at_boundaries segments boundaries =
        filter (\<lambda>s. strip (seg_text s) \<noteq> []) (split_each segments (sort boundaries))
      \<and> (\<forall>p\<in>set (split_segments_at_boundaries segments boundaries). strip (seg_text p) \<noteq> []))
   \<and> (words segment = None \<and> seg_start segment < t \<and> t < seg_end segment
        \<and> strip (seg_text segment) \<noteq> [] \<longrightarrow>
      split_segments_at_boundaries [segment] [t] = [segment\<lparr>seg_end := t\<rparr>])"
  by (auto simp: split_segments_at_boundaries_def Let_def split_segment_at_time_def no_words_def
      strip_def)

theorem boundaries_drop_empty_witness:
  "[seg_you] \<noteq> [] \<and> [1 / 2 :: rat] \<noteq> []
   \<and> words seg_you = None \<and> seg_start seg_you < 1 / 2 \<and> 1 / 2 < seg_end seg_you
   \<and> strip (seg_text seg_you) \<noteq> []
   \<and> split_each [seg_you] (sort [1 / 2]) =
        [seg_you\<lparr>seg_end := 1 / 2\<rparr>, seg_you\<lparr>seg_start := 1 / 2, seg_text := []\<rparr>]
   \<and> split_segments_at_boundaries [seg_you] [1 / 2] = [seg_you\<lparr>seg_end := 1 / 2\<rparr>]
   \<and> split_segments_at_boundaries [seg_you] [] = [seg_you]"
  using boundaries_drop_empty [of "[seg_you]" "[1 / 2]" seg_you "1 / 2"]
    boundaries_drop_empty [of "[seg_you]" "[]" seg_you "1 / 2"]
  by (simp add: seg_you_def strip_def is_space_def split_segment_at_time_def no_words_def)

text \<open>
  C7. Every segment in the output of the merger has its speaker set, to the left label
  or to the right label, and no step after the labelling changes or clears it: a part
  of a split has the speaker of the segment split; a part that the boundary application
  returns has the speaker of one of its input segments; so the parts of the left
  channel all carry the left label and the parts of the right channel the right label;
  and the output of the merger is a rearrangement of exactly these parts.
\<close>

theorem merge_dialogue_speaker:
  "(\<forall>p\<in>set (split_segment_at_time s t). speaker p = speaker s)
   \<and> (\<forall>p\<in>set (split_segments_at_boundaries segs bs). \<exists>s\<in>set segs. speaker p = speaker s)
   \<and> mset (merge_dialogue left_segments left_speaker right_segments right_speaker) =
        mset (split_segments_at_boundaries
                (map (\<lambda>s. s\<lparr>speaker := Some left_speaker\<rparr>) left_segments)
                (map seg_start right_segments))
        + mset (split_segments_at_boundaries
                (map (\<lambda>s. s\<lparr>speaker := Some right_speaker\<rparr>) right_segments)
                (map seg_start left_segments))
   \<and> (\<forall>p\<in>set (split_segments_at_boundaries
                (map (\<lambda>s. s\<lparr>speaker := Some left_speaker\<rparr>) left_segments)
                (map seg_start right_segments)). speaker p = Some left_speaker)
   \<and> (\<forall>p\<in>set (split_segments_at_boundaries
                (map (\<lambda>s. s\<lparr>speaker := Some right_speaker\<rparr>) right_segments)
                (map seg_start left_segments)). speaker p = Some right_speaker)
   \<and> (\<forall>p\<in>set (merge_dialogue left_segments left_speaker right_segments right_speaker).
        speaker p = Some left_speaker \<or> speaker p = Some right_speaker)"
proof -
  let ?ll = "map (\<lambda>s. s\<lparr>speaker := Some left_speaker\<rparr>) left_segments"
  let ?rl = "map (\<lambda>s. s\<lparr>speaker := Some right_speaker\<rparr>) right_segments"
  let ?A = "split_segments_at_boundaries ?ll (map seg_start right_segments)"
  let ?B = "split_segments_at_boundaries ?rl (map seg_start left_segments)"
  have bl: "map seg_start ?rl = map seg_start right_segments"
    and br: "map seg_start ?ll = map seg_start left_segments"
    by simp_all
  have m: "merge_dialogue left_segments left_speaker right_segments right_speaker =
      sort_key (\<lambda>s. (seg_start s, seg_end s)) (?A @ ?B)"
    unfolding merge_dialogue_def Let_def bl br ..
  have c1: "\<forall>p\<in>set (split_segment_at_time s t). speaker p = speaker s"
    by (blast dest: split_speaker)
  have c2: "\<forall>p\<in>set (split_segments_at_boundaries segs bs). \<exists>s\<in>set segs. speaker p = speaker s"
    by (blast dest: boundaries_speaker)
  have c3: "mset (merge_dialogue left_segments left_speaker right_segments right_speaker)
      = mset ?A + mset ?B"
    unfolding m by simp
  have c4: "\<forall>p\<in>set ?A. speaker p = Some left_speaker"
  proof
    fix p assume "p \<in> set ?A"
    from boundaries_speaker [OF this] show "speaker p = Some left_speaker" by auto
  qed
  have c5: "\<forall>p\<in>set ?B. speaker p = Some right_speaker"
  proof
    fix p assume "p \<in> set ?B"
    from boundaries_speaker [OF this] show "speaker p = Some right_speaker" by auto
  qed
  have c6: "\<forall>p\<in>set (merge_dialogue left_segments left_speaker right_segments right_speaker).
      speaker p = Some left_speaker \<or> speaker p = Some right_speaker"
    unfolding m using c4 c5 by auto
  from c1 c2 c3 c4 c5 c6 show ?thesis by blast
qed

theorem merge_dialogue_speaker_witness:
  "split_segment_at_time (seg_aligned\<lparr>speaker := Some ''Other''\<rparr>) 1 =
     [\<lparr>seg_start = 0, seg_end = 1, seg_text = ''Hello'', avg_logprob = None,
       no_speech_prob = None, speaker = Some ''Other'', words = Some [word_hello]\<rparr>,
      \<lparr>seg_start = 1, seg_end = 2, seg_text = ''world'', avg_logprob = None,
       no_speech_prob = None, speaker = Some ''Other'', words = Some [word_world]\<rparr>]
   \<and> merge_dialogue [seg_reply] ''You'' [seg_aligned] ''Other'' =
     [\<lparr>seg_start = 0, seg_end = 1, seg_text = ''Hello'', avg_logprob = None,
       no_speech_prob = None, speaker = Some ''Other'', words = Some [word_hello]\<rparr>,
      \<lparr>seg_start = 1, seg_end = 2, seg_text = ''world'', avg_logprob = None,
       no_speech_prob = None, speaker = Some ''Other'', words = Some [word_world]\<rparr>,
      seg_reply\<lparr>speaker := Some ''You''\<rparr>]
   \<and> split_segments_at_boundaries [seg_aligned\<lparr>speaker := Some ''Other''\<rparr>] [1] =
     [\<lparr>seg_start = 0, seg_end = 1, seg_text = ''Hello'', avg_logprob = None,
       no_speech_prob = None, speaker = Some ''Other'', words = Some [word_hello]\<rparr>,
      \<lparr>seg_start = 1, seg_end = 2, seg_text = ''world'', avg_logprob = None,
       no_speech_prob = None, speaker = Some ''Other'', words = Some [word_world]\<rparr>]
   \<and> speaker (merge_dialogue [seg_reply] ''You'' [seg_aligned] ''Other'' ! 0) = Some ''Other''
   \<and> speaker (merge_dialogue [seg_reply] ''You'' [seg_aligned] ''Other'' ! 1) = Some ''Other''
   \<and> speaker (merge_dialogue [seg_reply] ''You'' [seg_aligned] ''Other'' ! 2) = Some ''You''"
proof -
  have s: "split_segment_at_time (seg_aligned\<lparr>speaker := Some ''Other''\<rparr>) 1 =
     [\<lparr>seg_start = 0, seg_end = 1, seg_text = ''Hello'', avg_logprob = None,
       no_speech_prob = None, speaker = Some ''Other'', words = Some [word_hello]\<rparr>,
      \<lparr>seg_start = 1, seg_end = 2, seg_text = ''world'', avg_logprob = None,
       no_speech_prob = None, speaker = Some ''Other'', words = Some [word_world]\<rparr>]"
    by (simp add: seg_aligned_def word_hello_def word_world_def strip_def is_space_def
        match_bracketed_def split_segment_at_time_def no_words_def build_parts_eq part_text_def
        joined_text_def)
  have b: "split_segments_at_boundaries [seg_aligned\<lparr>speaker := Some ''Other''\<rparr>] [1] =
     [\<lparr>seg_start = 0, seg_end = 1, seg_text = ''Hello'', avg_logprob = None,
       no_speech_prob = None, speaker = Some ''Other'', words = Some [word_hello]\<rparr>,
      \<lparr>seg_start = 1, seg_end = 2, seg_text = ''world'', avg_logprob = None,
       no_speech_prob = None, speaker = Some ''Other'', words = Some [word_world]\<rparr>]"
    by (simp add: split_segments_at_boundaries_def s strip_def is_space_def)
  have a: "split_segments_at_boundaries [seg_reply\<lparr>speaker := Some ''You''\<rparr>] [0] =
     [seg_reply\<lparr>speaker := Some ''You''\<rparr>]"
    by (simp add: split_segments_at_boundaries_def split_segment_at_time_def seg_reply_def
        strip_def is_space_def)
  have m: "merge_dialogue [seg_reply] ''You'' [seg_aligned] ''Other'' =
     [\<lparr>seg_start = 0, seg_end = 1, seg_text = ''Hello'', avg_logprob = None,
       no_speech_prob = None, speaker = Some ''Other'', words = Some [word_hello]\<rparr>,
      \<lparr>seg_start = 1, seg_end = 2, seg_text = ''world'', avg_logprob = None,
       no_speech_prob = None, speaker = Some ''Other'', words = Some [word_world]\<rparr>,
      seg_reply\<lparr>speaker := Some ''You''\<rparr>]"
  proof -
    have "map seg_start [seg_aligned\<lparr>speaker := Some ''Other''\<rparr>] = [0]"
      and "map seg_start [seg_reply\<lparr>speaker := Some ''You''\<rparr>] = [1]"
      by (simp_all add: seg_aligned_def seg_reply_def)
    then show ?thesis
      by (simp add: merge_dialogue_def a b) (simp add: seg_reply_def less_eq_prod_def)
  qed
  from merge_dialogue_speaker
         [of "seg_aligned\<lparr>speaker := Some ''Other''\<rparr>" 1
             "[seg_aligned\<lparr>speaker := Some ''Other''\<rparr>]" "[1]"
             "[seg_reply]" "''You''" "[seg_aligned]" "''Other''"]
       s b m
  show ?thesis by (simp add: seg_reply_def)
qed

text \<open>
  C6. The output of the merger is sorted by the pair of start and end: along the output
  the start times do not decrease, and between two segments of equal start the end
  times do not decrease.
\<close>

theorem merge_dialogue_sorted:
  "sorted (map (\<lambda>s. (seg_start s, seg_end s))
       (merge_dialogue left_segments left_speaker right_segments right_speaker))
   \<and> (\<forall>i j. i < j
         \<and> j < length (merge_dialogue left_segments left_speaker right_segments right_speaker)
       \<longrightarrow> seg_start (merge_dialogue left_segments left_speaker right_segments right_speaker ! i)
             \<le> seg_start (merge_dialogue left_segments left_speaker right_segments right_speaker ! j)
           \<and> (seg_start (merge_dialogue left_segments left_speaker right_segments right_speaker ! i)
                = seg_start (merge_dialogue left_segments left_speaker right_segments right_speaker ! j)
              \<longrightarrow> seg_end (merge_dialogue left_segments left_speaker right_segments right_speaker ! i)
                    \<le> seg_end (merge_dialogue left_segments left_speaker right_segments right_speaker ! j)))"
proof -
  let ?out = "merge_dialogue left_segments left_speaker right_segments right_speaker"
  let ?key = "\<lambda>s. (seg_start s, seg_end s)"
  have srt: "sorted (map ?key ?out)"
    by (simp add: merge_dialogue_def Let_def)
  have "seg_start (?out ! i) \<le> seg_start (?out ! j)
        \<and> (seg_start (?out ! i) = seg_start (?out ! j) \<longrightarrow> seg_end (?out ! i) \<le> seg_end (?out ! j))"
    if "i < j" and "j < length ?out" for i j
  proof -
    from that have "map ?key ?out ! i \<le> map ?key ?out ! j"
      using srt by (intro sorted_nth_mono) simp_all
    with that have "?key (?out ! i) \<le> ?key (?out ! j)" by simp
    then show ?thesis by (auto simp: less_eq_prod_def)
  qed
  with srt show ?thesis by blast
qed

theorem merge_dialogue_sorted_witness:
  "merge_dialogue [seg_other\<lparr>seg_start := 0\<rparr>] ''Other'' [seg_you] ''You'' =
     [seg_you\<lparr>speaker := Some ''You''\<rparr>,
      seg_other\<lparr>seg_start := 0, speaker := Some ''Other''\<rparr>]
   \<and> (0::nat) < 1
   \<and> 1 < length (merge_dialogue [seg_other\<lparr>seg_start := 0\<rparr>] ''Other'' [seg_you] ''You'')
   \<and> seg_start (merge_dialogue [seg_other\<lparr>seg_start := 0\<rparr>] ''Other'' [seg_you] ''You'' ! 0)
       = seg_start (merge_dialogue [seg_other\<lparr>seg_start := 0\<rparr>] ''Other'' [seg_you] ''You'' ! 1)
   \<and> seg_end (merge_dialogue [seg_other\<lparr>seg_start := 0\<rparr>] ''Other'' [seg_you] ''You'' ! 0)
       \<le> seg_end (merge_dialogue [seg_other\<lparr>seg_start := 0\<rparr>] ''Other'' [seg_you] ''You'' ! 1)"
proof -
  have m: "merge_dialogue [seg_other\<lparr>seg_start := 0\<rparr>] ''Other'' [seg_you] ''You'' =
     [seg_you\<lparr>speaker := Some ''You''\<rparr>,
      seg_other\<lparr>seg_start := 0, speaker := Some ''Other''\<rparr>]"
    by (simp add: merge_dialogue_def split_segments_at_boundaries_def split_segment_at_time_def
        no_words_def seg_you_def seg_other_def strip_def is_space_def less_eq_prod_def)
  have l: "(0::nat) < 1
      \<and> 1 < length (merge_dialogue [seg_other\<lparr>seg_start := 0\<rparr>] ''Other'' [seg_you] ''You'')"
    unfolding m by simp
  have e: "seg_start (merge_dialogue [seg_other\<lparr>seg_start := 0\<rparr>] ''Other'' [seg_you] ''You'' ! 0)
       = seg_start (merge_dialogue [seg_other\<lparr>seg_start := 0\<rparr>] ''Other'' [seg_you] ''You'' ! 1)"
    unfolding m by (simp add: seg_you_def)
  from merge_dialogue_sorted
         [of "[seg_other\<lparr>seg_start := 0\<rparr>]" "''Other''" "[seg_you]" "''You''"] l e m
  show ?thesis by blast
qed


section \<open>The time formatter\<close>

lemma fmt_time_rounding_cases:
  "fmt_time (to_double (59995 / 1000)) = ''[00:59.99]''
   \<and> fmt_time (to_double (15 / 1000)) = ''[00:00.02]''
   \<and> fmt_time (to_double (125 / 1000)) = ''[00:00.12]''"
  by code_simp

text \<open>
  C9. The formatter clamps a negative time to zero and writes minutes, whole seconds and
  rounded centiseconds, as the two examples show; the centiseconds are not kept below
  100: at 59.999 the fractional second times 100 rounds to 100 and is written with three
  digits, the second not being carried. The last two lines give the same at the doubles
  that the literals 59.999 and 75.256 denote.
\<close>

theorem fmt_time_centis_overflow:
  "fmt_time (59999 / 1000) = ''[00:59.100]''
   \<and> fmt_time (75256 / 1000) = ''[01:15.26]''
   \<and> fmt_time (- 3) = ''[00:00.00]''
   \<and> fmt_time (to_double (59999 / 1000)) = ''[00:59.100]''
   \<and> fmt_time (to_double (75256 / 1000)) = ''[01:15.26]''"
  by code_simp

end
